theory Spec2Isabelle
  imports Main
begin

section \<open>Strings\<close>

text \<open>
  File names and MIME types are modelled as \<open>string\<close> (a list of characters). The
  program compares and rewrites names only against the ASCII literals \<open>.ppt\<close>,
  \<open>.pptx\<close> and \<open>.pdf\<close>, so the ASCII letters are the only ones whose case matters.
\<close>

text \<open>\<open>String.prototype.endsWith\<close>: the last \<open>length suf\<close> characters are \<open>suf\<close>.\<close>

definition endsWith :: "string \<Rightarrow> string \<Rightarrow> bool" where
  "endsWith s suf = (length suf \<le> length s \<and> drop (length s - length suf) s = suf)"

text \<open>
  Case conversion of one character. Only the letters a-z / A-Z are changed; every other
  character is returned as it is.
\<close>

definition toUpperChar :: "char \<Rightarrow> char" where
  "toUpperChar c =
     (case map_of (zip ''abcdefghijklmnopqrstuvwxyz'' ''ABCDEFGHIJKLMNOPQRSTUVWXYZ'') c of
        Some u \<Rightarrow> u
      | None \<Rightarrow> c)"

definition toLowerChar :: "char \<Rightarrow> char" where
  "toLowerChar c =
     (case map_of (zip ''ABCDEFGHIJKLMNOPQRSTUVWXYZ'' ''abcdefghijklmnopqrstuvwxyz'') c of
        Some l \<Rightarrow> l
      | None \<Rightarrow> c)"

text \<open>\<open>String.prototype.toLowerCase\<close>.\<close>

definition toLowerCase :: "string \<Rightarrow> string" where
  "toLowerCase s = map toLowerChar s"

subsection \<open>The regular expression \<open>/\.(ppt|pptx)$/i\<close>\<close>

text \<open>
  With the \<open>i\<close> flag two characters match when their canonical (upper case) forms are
  equal. The pattern ends in \<open>$\<close> and has no \<open>m\<close> flag, so an attempt at a position
  succeeds exactly when the whole rest of the input is \<open>.ppt\<close> (first alternative) or
  \<open>.pptx\<close> (second alternative), in any letter case.
\<close>

definition ci_equal :: "string \<Rightarrow> string \<Rightarrow> bool" where
  "ci_equal s pat = (map toUpperChar s = map toUpperChar pat)"

definition ext_match_here :: "string \<Rightarrow> bool" where
  "ext_match_here rest = (ci_equal rest ''.ppt'' \<or> ci_equal rest ''.pptx'')"

text \<open>
  \<open>s.replace(/\.(ppt|pptx)$/i, '.pdf')\<close>: the regular expression is not global, so
  the leftmost match is replaced; the positions are tried from left to right, and the
  input is returned unchanged when no position matches.
\<close>

fun replace_ppt_ext :: "string \<Rightarrow> string" where
  "replace_ppt_ext [] = []"
| "replace_ppt_ext (c # cs) =
     (if ext_match_here (c # cs) then ''.pdf'' else c # replace_ppt_ext cs)"

text \<open>A name ends in \<open>.ppt\<close> or \<open>.pptx\<close>, in any letter case.\<close>

definition has_ppt_ext :: "string \<Rightarrow> bool" where
  "has_ppt_ext s =
     (ci_equal (drop (length s - 4) s) ''.ppt'' \<or> ci_equal (drop (length s - 5) s) ''.pptx'')"

section \<open>Files\<close>

text \<open>The browser's \<open>File\<close> object, as the client code reads it.\<close>

record File =
  name :: string
  type :: string
  size_bytes :: nat

text \<open>The file descriptor that the upload middleware hands to the server code.\<close>

record upload =
  originalname :: string
  mimetype :: string
  size_up :: nat

section \<open>Type checks\<close>

definition validTypes :: "string list" where
  "validTypes =
     [''application/vnd.ms-powerpoint'',
      ''application/vnd.openxmlformats-officedocument.presentationml.presentation'']"

text \<open>server.ts, the \<open>fileFilter\<close> of the upload middleware: \<open>True\<close> is \<open>cb(null, true)\<close>,
  \<open>False\<close> is \<open>cb(new Error('Only PowerPoint files are allowed!'))\<close>.\<close>

definition fileFilter :: "upload \<Rightarrow> bool" where
  "fileFilter file =
     (mimetype file = ''application/vnd.ms-powerpoint'' \<or>
      mimetype file =
        ''application/vnd.openxmlformats-officedocument.presentationml.presentation'' \<or>
      endsWith (originalname file) ''.ppt'' \<or>
      endsWith (originalname file) ''.pptx'')"

text \<open>\<open>FileUploadService.validateFileType\<close>.\<close>

definition validateFileType :: "File \<Rightarrow> bool" where
  "validateFileType file =
     (type file \<in> set validTypes \<or>
      endsWith (name file) ''.ppt'' \<or>
      endsWith (name file) ''.pptx'')"

text \<open>\<open>ConversionService.isValidPowerPointFile\<close>.\<close>

definition isValidPowerPointFile :: "File \<Rightarrow> bool" where
  "isValidPowerPointFile file =
     (type file \<in> set validTypes \<or>
      list_ex (\<lambda>ext. endsWith (toLowerCase (name file)) ext) [''.ppt'', ''.pptx''])"

section \<open>Derived file names\<close>

text \<open>server.ts: \<open>req.file.originalname.replace(/\.(ppt|pptx)$/i, '.pdf')\<close>.\<close>

definition outputFileName :: "string \<Rightarrow> string" where
  "outputFileName originalname' = replace_ppt_ext originalname'"

text \<open>\<open>ConversionService.downloadPdf\<close>: the value given to \<open>link.download\<close>.\<close>

definition downloadPdf_name :: "string \<Rightarrow> string" where
  "downloadPdf_name fileName = replace_ppt_ext fileName"


section \<open>The upload middleware (server.ts, lines 52-79)\<close>

text \<open>
  \<open>Date.now() + '-' + file.originalname\<close>: the number is converted to its decimal
  representation before the concatenation.
\<close>

definition digit_char :: "nat \<Rightarrow> char" where
  "digit_char d = ''0123456789'' ! d"

fun string_of_nat :: "nat \<Rightarrow> string" where
  "string_of_nat n =
     (if n < 10 then [digit_char n]
      else string_of_nat (n div 10) @ [digit_char (n mod 10)])"

declare string_of_nat.simps [simp del]

definition storage_destination :: string where
  "storage_destination = ''uploads/''"

definition storage_filename :: "nat \<Rightarrow> upload \<Rightarrow> string" where
  "storage_filename now file = string_of_nat now @ ''-'' @ originalname file"

text \<open>\<open>limits.fileSize\<close>.\<close>

definition fileSize_limit :: nat where
  "fileSize_limit = 50 * 1024 * 1024"

text \<open>The file as the route handler sees it in \<open>req.file\<close>: the descriptor plus the path
  of the stored copy.\<close>

record stored = upload +
  path :: string

text \<open>A thrown value: an \<open>Error\<close> object with its message, or some other value.\<close>

datatype thrown = Error string | NotAnError

text \<open>\<open>e instanceof Error ? e.message : 'Unknown error'\<close>.\<close>

fun message_of :: "thrown \<Rightarrow> string" where
  "message_of (Error m) = m"
| "message_of NotAnError = ''Unknown error''"

text \<open>
  Everything outside the process that a request depends on: the clock, and what each
  remote call and each file operation does when it is made (\<open>None\<close>: it succeeds).
\<close>

record world =
  now :: nat
  create_result :: "thrown + string option"
  export_result :: "thrown option"
  writeFile_result :: "thrown option"
  delete_result :: "thrown option"
  unlink_result :: "string \<Rightarrow> thrown option"

text \<open>
  The middleware \<open>upload.single('file')\<close>. Its library is not part of the repository;
  its documented contract is: a request without a file part goes on to the handler with
  \<open>req.file\<close> undefined; an error given to the \<open>fileFilter\<close> callback, and a file larger
  than \<open>limits.fileSize\<close>, are passed to \<open>next(err)\<close>, so the route handler is skipped;
  otherwise the file is stored under \<open>destination\<close> with the name \<open>filename\<close> computes,
  and the handler runs. The filter is asked before the body is read.
\<close>

datatype middleware_result = next_handler "stored option" | next_error thrown

definition upload_single :: "world \<Rightarrow> upload option \<Rightarrow> middleware_result" where
  "upload_single w part =
     (case part of
        None \<Rightarrow> next_handler None
      | Some file \<Rightarrow>
          if \<not> fileFilter file then next_error (Error ''Only PowerPoint files are allowed!'')
          else if size_up file > fileSize_limit then next_error (Error ''File too large'')
          else next_handler (Some
                 \<lparr>originalname = originalname file, mimetype = mimetype file,
                  size_up = size_up file,
                  path = storage_destination @ storage_filename (now w) file\<rparr>))"

section \<open>The route handler (server.ts, lines 86-210)\<close>

text \<open>What the handler does to the outside, in the order it does it.\<close>

datatype effect =
    drive_create string
  | drive_export string
  | drive_delete string
  | writeFile string
  | unlink string

fun is_remote :: "effect \<Rightarrow> bool" where
  "is_remote (drive_create _) = True"
| "is_remote (drive_export _) = True"
| "is_remote (drive_delete _) = True"
| "is_remote (writeFile _) = False"
| "is_remote (unlink _) = False"

text \<open>
  The response: \<open>res.status(n).json(obj)\<close> with the object's fields in order,
  \<open>res.download(path, filename)\<close>, or the framework's own error page, sent when a
  middleware passed an error on and the application has no error handler.
\<close>

datatype response =
    json nat "(string \<times> string) list"
  | download string string
  | framework_error nat

fun status :: "response \<Rightarrow> nat" where
  "status (json n _) = n"
| "status (download _ _) = 200"
| "status (framework_error n) = n"

text \<open>Truthiness of a value of type \<open>string | null\<close>.\<close>

fun truthy :: "string option \<Rightarrow> bool" where
  "truthy None = False"
| "truthy (Some s) = (s \<noteq> [])"

text \<open>
  A \<open>try\<close> block of awaited calls, each with what it does when made: the calls are
  made in order, and the first one that throws passes control to \<open>catch\<close>, so the
  later ones are not made.
\<close>

fun try_block :: "(effect \<times> thrown option) list \<Rightarrow> effect list" where
  "try_block [] = []"
| "try_block ((e, None) # rest) = e # try_block rest"
| "try_block ((e, Some err) # rest) = [e]"

text \<open>\<open>cleanupFiles\<close>: the \<open>catch\<close> only logs.\<close>

definition cleanupFiles :: "world \<Rightarrow> string option \<Rightarrow> string option \<Rightarrow> string option \<Rightarrow> effect list" where
  "cleanupFiles w uploadedFileId tempFilePath outputPath =
     try_block
       ((if truthy uploadedFileId
         then [(drive_delete (the uploadedFileId), delete_result w)] else []) @
        (if truthy tempFilePath
         then [(unlink (the tempFilePath), unlink_result w (the tempFilePath))] else []) @
        (if truthy outputPath
         then [(unlink (the outputPath), unlink_result w (the outputPath))] else []))"

text \<open>The outer \<open>catch\<close> of the handler: clean up, then answer 500. \<open>done\<close> is what
  was done before the exception.\<close>

definition on_error ::
  "world \<Rightarrow> string option \<Rightarrow> string option \<Rightarrow> string option \<Rightarrow> effect list \<Rightarrow> thrown
     \<Rightarrow> response \<times> effect list" where
  "on_error w uploadedFileId tempFilePath outputPath done err =
     (json 500 [(''error'', ''Error converting file to PDF''), (''details'', message_of err)],
      done @ cleanupFiles w uploadedFileId tempFilePath outputPath)"

text \<open>\<open>join('uploads', outputFileName)\<close>, for a plain file name.\<close>

definition join_uploads :: "string \<Rightarrow> string" where
  "join_uploads fileName = ''uploads/'' @ fileName"

text \<open>
  The handler of \<open>POST /api/convert\<close>. The fixed delay between the two remote calls
  and the console output are left out. On success the cleanup runs in the callback of
  \<open>res.download\<close>, after the response.
\<close>

definition convert_handler :: "world \<Rightarrow> stored option \<Rightarrow> response \<times> effect list" where
  "convert_handler w req_file =
     (case req_file of
        None \<Rightarrow> (json 400 [(''error'', ''No file uploaded'')], [])
      | Some file \<Rightarrow>
          let tempFilePath = Some (path file);
              created = [drive_create (originalname file)]
          in
          (case create_result w of
             Inl uploadError \<Rightarrow>
               on_error w None tempFilePath None created
                 (Error (''Failed to upload to Google Drive: '' @ message_of uploadError))
           | Inr data_id \<Rightarrow>
               if \<not> truthy data_id then
                 on_error w None tempFilePath None created
                   (Error (''Failed to upload to Google Drive: '' @
                      message_of (Error ''Failed to upload file to Google Drive'')))
               else
                 let uploadedFileId = data_id;
                     exported = created @ [drive_export (the uploadedFileId)]
                 in
                 (case export_result w of
                    Some conversionError \<Rightarrow>
                      on_error w uploadedFileId tempFilePath None exported
                        (Error (''Failed to convert to PDF: '' @ message_of conversionError))
                  | None \<Rightarrow>
                      let outputFileName' = outputFileName (originalname file);
                          outputPath = join_uploads outputFileName';
                          written = exported @ [writeFile outputPath]
                      in
                      (case writeFile_result w of
                         Some conversionError \<Rightarrow>
                           on_error w uploadedFileId tempFilePath (Some outputPath) written
                             (Error (''Failed to convert to PDF: '' @
                                message_of conversionError))
                       | None \<Rightarrow>
                           (download outputPath outputFileName',
                            written @
                            cleanupFiles w uploadedFileId tempFilePath (Some outputPath))))))"

text \<open>
  The route: the middleware, then the handler. The application registers no error
  handler, and the errors the middleware passes on carry no status of their own, so the
  framework answers them with status 500.
\<close>

definition post_api_convert :: "world \<Rightarrow> upload option \<Rightarrow> response \<times> effect list" where
  "post_api_convert w part =
     (case upload_single w part of
        next_error err \<Rightarrow> (framework_error 500, [])
      | next_handler req_file \<Rightarrow> convert_handler w req_file)"

text \<open>One request, as far as the scratch files go: when it arrived and the name of its file.\<close>

record request =
  arrived :: nat
  file_name :: string

definition temp_path :: "request \<Rightarrow> string" where
  "temp_path r =
     storage_destination @
     storage_filename (arrived r) \<lparr>originalname = file_name r, mimetype = [], size_up = 0\<rparr>"

definition output_path :: "request \<Rightarrow> string" where
  "output_path r = join_uploads (outputFileName (file_name r))"

text \<open>The scratch paths of a request: the stored upload and the output file.\<close>

definition scratch_paths :: "request \<Rightarrow> string list" where
  "scratch_paths r = [temp_path r, output_path r]"

text \<open>The paths of the local files that a run writes or unlinks.\<close>

fun touched_files :: "effect list \<Rightarrow> string list" where
  "touched_files [] = []"
| "touched_files (writeFile p # es) = p # touched_files es"
| "touched_files (unlink p # es) = p # touched_files es"
| "touched_files (e # es) = touched_files es"

section \<open>The client form\<close>

definition maxFileSize :: nat where
  "maxFileSize = 10 * 1024 * 1024"

text \<open>\<open>FileUploadService.validateFileSize\<close>.\<close>

definition validateFileSize :: "File \<Rightarrow> bool" where
  "validateFileSize file = (size_bytes file \<le> maxFileSize)"

text \<open>The fields of \<open>ConverterComponent\<close>, and whether the interval timer that
  \<open>convertToPdf\<close> starts is still set.\<close>

record ConverterComponent =
  isLoading :: bool
  errorMessage :: string
  successMessage :: string
  selectedFile :: "File option"
  conversionStatus :: string
  uploadProgress :: nat
  progressInterval :: bool

text \<open>\<open>onFileSelected\<close>, given \<open>input.files\<close>.\<close>

definition onFileSelected :: "File list \<Rightarrow> ConverterComponent \<Rightarrow> ConverterComponent" where
  "onFileSelected files c =
     (case files of
        [] \<Rightarrow> c
      | file # _ \<Rightarrow>
          if \<not> validateFileType file then
            c\<lparr>errorMessage := ''Please select a PowerPoint file (.ppt or .pptx)'',
              selectedFile := None\<rparr>
          else if \<not> validateFileSize file then
            c\<lparr>errorMessage := ''File size exceeds the maximum limit of 10MB'',
              selectedFile := None\<rparr>
          else
            c\<lparr>selectedFile := Some file, errorMessage := [], successMessage := []\<rparr>)"

text \<open>\<open>convertToPdf\<close> up to the call of the service: the fields are reset and the timer
  is started.\<close>

definition convertToPdf :: "ConverterComponent \<Rightarrow> ConverterComponent" where
  "convertToPdf c =
     (if selectedFile c = None then c\<lparr>errorMessage := ''Please select a file first''\<rparr>
      else c\<lparr>isLoading := True, errorMessage := [], successMessage := [],
             conversionStatus := ''Uploading file to server...'', uploadProgress := 0,
             progressInterval := True\<rparr>)"

text \<open>The callback of \<open>setInterval\<close>.\<close>

definition interval_callback :: "ConverterComponent \<Rightarrow> ConverterComponent" where
  "interval_callback c =
     (if uploadProgress c < 90 then
        let c1 = c\<lparr>uploadProgress := uploadProgress c + 10\<rparr> in
        if uploadProgress c1 \<ge> 30 \<and> uploadProgress c1 < 60 then
          c1\<lparr>conversionStatus := ''Processing PowerPoint file...''\<rparr>
        else if uploadProgress c1 \<ge> 60 \<and> uploadProgress c1 < 90 then
          c1\<lparr>conversionStatus := ''Converting to PDF...''\<rparr>
        else c1
      else c)"

text \<open>The \<open>next\<close> callback of the subscription, up to its \<open>setTimeout\<close>.\<close>

definition on_next :: "ConverterComponent \<Rightarrow> ConverterComponent" where
  "on_next c =
     c\<lparr>uploadProgress := 100, conversionStatus := ''Finalizing...'',
       progressInterval := False\<rparr>"

text \<open>The \<open>error\<close> callback of the subscription, given \<open>error.message\<close>.\<close>

definition on_error_callback :: "string \<Rightarrow> ConverterComponent \<Rightarrow> ConverterComponent" where
  "on_error_callback msg c =
     c\<lparr>progressInterval := False, isLoading := False, conversionStatus := [],
       uploadProgress := 0,
       errorMessage :=
         (if msg \<noteq> [] then msg
          else ''An error occurred during conversion. Please try again.'')\<rparr>"

text \<open>What can happen while a request is in flight: the timer fires, the response
  arrives, or the request fails. A cleared timer does not fire.\<close>

datatype event = tick | response_arrived | request_failed string

fun step :: "event \<Rightarrow> ConverterComponent \<Rightarrow> ConverterComponent" where
  "step tick c = (if progressInterval c then interval_callback c else c)"
| "step response_arrived c = on_next c"
| "step (request_failed msg) c = on_error_callback msg c"

fun run :: "event list \<Rightarrow> ConverterComponent \<Rightarrow> ConverterComponent" where
  "run [] c = c"
| "run (e # es) c = run es (step e c)"


text \<open>What holds of the progress value as long as no response has arrived.\<close>

definition in_flight_inv :: "ConverterComponent \<Rightarrow> bool" where
  "in_flight_inv c = (uploadProgress c \<le> 90 \<and> 10 dvd uploadProgress c)"

section \<open>Facts about the string functions\<close>

lemma endsWith_iff: "endsWith s suf \<longleftrightarrow> (\<exists>pre. s = pre @ suf)"
  unfolding endsWith_def
proof
  assume a: "length suf \<le> length s \<and> drop (length s - length suf) s = suf"
  have "s = take (length s - length suf) s @ drop (length s - length suf) s" by simp
  with a show "\<exists>pre. s = pre @ suf" by metis
next
  assume "\<exists>pre. s = pre @ suf"
  then show "length suf \<le> length s \<and> drop (length s - length suf) s = suf" by auto
qed

lemma endsWith_last: "endsWith s suf \<Longrightarrow> suf \<noteq> [] \<Longrightarrow> last s = last suf"
  by (auto simp: endsWith_iff)

lemma toUpperChar_literals:
  "toUpperChar CHR ''.'' = CHR ''.''"
  "toUpperChar CHR ''p'' = CHR ''P''"
  "toUpperChar CHR ''t'' = CHR ''T''"
  "toUpperChar CHR ''x'' = CHR ''X''"
  "toUpperChar CHR ''P'' = CHR ''P''"
  "toUpperChar CHR ''T'' = CHR ''T''"
  "toUpperChar CHR ''X'' = CHR ''X''"
  by (simp_all add: toUpperChar_def)

lemma toUpperChar_eq_P: "toUpperChar c = CHR ''P'' \<longleftrightarrow> c = CHR ''p'' \<or> c = CHR ''P''"
  by (auto simp: toUpperChar_def split: if_splits)

lemma toUpperChar_eq_T: "toUpperChar c = CHR ''T'' \<longleftrightarrow> c = CHR ''t'' \<or> c = CHR ''T''"
  by (auto simp: toUpperChar_def split: if_splits)

lemma toUpperChar_eq_X: "toUpperChar c = CHR ''X'' \<longleftrightarrow> c = CHR ''x'' \<or> c = CHR ''X''"
  by (auto simp: toUpperChar_def split: if_splits)

lemma toUpperChar_eq_dot: "toUpperChar c = CHR ''.'' \<longleftrightarrow> c = CHR ''.''"
  by (auto simp: toUpperChar_def split: if_splits)

lemma ci_equal_ppt: "ci_equal s ''.ppt'' \<longleftrightarrow> map toUpperChar s = ''.PPT''"
  by (simp add: ci_equal_def toUpperChar_literals)

lemma ci_equal_pptx: "ci_equal s ''.pptx'' \<longleftrightarrow> map toUpperChar s = ''.PPTX''"
  by (simp add: ci_equal_def toUpperChar_literals)

text \<open>What "in any letter case" means for the two extensions: the dot, then each letter
  in either case.\<close>

lemma ci_equal_ppt_variants:
  "ci_equal s ''.ppt'' \<longleftrightarrow>
     (\<exists>a b c. s = [CHR ''.'', a, b, c] \<and> a \<in> {CHR ''p'', CHR ''P''} \<and>
        b \<in> {CHR ''p'', CHR ''P''} \<and> c \<in> {CHR ''t'', CHR ''T''})"
  by (auto simp: ci_equal_ppt map_eq_Cons_conv toUpperChar_eq_P toUpperChar_eq_T
        toUpperChar_eq_dot)

lemma ci_equal_pptx_variants:
  "ci_equal s ''.pptx'' \<longleftrightarrow>
     (\<exists>a b c d. s = [CHR ''.'', a, b, c, d] \<and> a \<in> {CHR ''p'', CHR ''P''} \<and>
        b \<in> {CHR ''p'', CHR ''P''} \<and> c \<in> {CHR ''t'', CHR ''T''} \<and>
        d \<in> {CHR ''x'', CHR ''X''})"
  by (auto simp: ci_equal_pptx map_eq_Cons_conv toUpperChar_eq_P toUpperChar_eq_T
        toUpperChar_eq_dot toUpperChar_eq_X)

lemma ci_equal_ppt_length: "ci_equal s ''.ppt'' \<Longrightarrow> length s = 4"
proof -
  assume "ci_equal s ''.ppt''"
  then have "length (map toUpperChar s) = length ''.PPT''" by (simp only: ci_equal_ppt)
  then show ?thesis by simp
qed

lemma ci_equal_pptx_length: "ci_equal s ''.pptx'' \<Longrightarrow> length s = 5"
proof -
  assume "ci_equal s ''.pptx''"
  then have "length (map toUpperChar s) = length ''.PPTX''" by (simp only: ci_equal_pptx)
  then show ?thesis by simp
qed

lemma ext_match_here_nonempty: "ext_match_here ext \<Longrightarrow> ext \<noteq> []"
  by (auto simp: ext_match_here_def dest: ci_equal_ppt_length ci_equal_pptx_length)

text \<open>The pattern is anchored at the end, so it matches at one position at most: no
  position to the left of a match matches.\<close>

lemma ext_match_here_shift:
  assumes "ext_match_here ext"
  shows "\<not> ext_match_here (b # bs @ ext)"
proof
  assume m: "ext_match_here (b # bs @ ext)"
  from assms consider "ci_equal ext ''.ppt''" | "ci_equal ext ''.pptx''"
    by (auto simp: ext_match_here_def)
  then show False
  proof cases
    case 1
    then have l: "length ext = 4" by (rule ci_equal_ppt_length)
    from m l have "ci_equal (b # bs @ ext) ''.pptx''"
      by (auto simp: ext_match_here_def dest: ci_equal_ppt_length)
    then have e: "map toUpperChar (b # bs @ ext) = ''.PPTX''" by (simp only: ci_equal_pptx)
    then have "length (map toUpperChar (b # bs @ ext)) = length ''.PPTX''" by (simp only:)
    with l have "bs = []" by simp
    with e have "map toUpperChar ext = ''PPTX''" by simp
    moreover from 1 have "map toUpperChar ext = ''.PPT''" by (simp only: ci_equal_ppt)
    ultimately show False by simp
  next
    case 2
    then have l: "length ext = 5" by (rule ci_equal_pptx_length)
    with m show False
      by (auto simp: ext_match_here_def dest: ci_equal_ppt_length ci_equal_pptx_length)
  qed
qed

lemma replace_ppt_ext_suffix:
  "ext_match_here ext \<Longrightarrow> replace_ppt_ext (base @ ext) = base @ ''.pdf''"
proof (induction base)
  case Nil
  then have "ext \<noteq> []" by (rule ext_match_here_nonempty)
  then obtain c cs where "ext = c # cs" by (cases ext) auto
  with Nil show ?case by simp
next
  case (Cons b bs)
  then show ?case using ext_match_here_shift[of ext b bs] by simp
qed

lemma replace_ppt_ext_unchanged:
  "(\<And>base ext. s = base @ ext \<Longrightarrow> \<not> ext_match_here ext) \<Longrightarrow> replace_ppt_ext s = s"
proof (induction s)
  case Nil
  show ?case by simp
next
  case (Cons c cs)
  have 1: "\<not> ext_match_here (c # cs)" using Cons.prems[of "[]" "c # cs"] by simp
  have 2: "replace_ppt_ext cs = cs"
  proof (rule Cons.IH)
    fix base ext
    assume "cs = base @ ext"
    then have "c # cs = (c # base) @ ext" by simp
    then show "\<not> ext_match_here ext" by (rule Cons.prems)
  qed
  from 1 2 show ?case by simp
qed

lemma has_ppt_ext_iff:
  "has_ppt_ext s \<longleftrightarrow> (\<exists>base ext. s = base @ ext \<and> ext_match_here ext)"
proof
  assume "has_ppt_ext s"
  then consider "ci_equal (drop (length s - 4) s) ''.ppt''"
    | "ci_equal (drop (length s - 5) s) ''.pptx''"
    by (auto simp: has_ppt_ext_def)
  then show "\<exists>base ext. s = base @ ext \<and> ext_match_here ext"
  proof cases
    case 1
    have "s = take (length s - 4) s @ drop (length s - 4) s" by simp
    with 1 show ?thesis unfolding ext_match_here_def by blast
  next
    case 2
    have "s = take (length s - 5) s @ drop (length s - 5) s" by simp
    with 2 show ?thesis unfolding ext_match_here_def by blast
  qed
next
  assume "\<exists>base ext. s = base @ ext \<and> ext_match_here ext"
  then obtain base ext where s: "s = base @ ext" and m: "ext_match_here ext" by blast
  from m consider "ci_equal ext ''.ppt''" | "ci_equal ext ''.pptx''"
    by (auto simp: ext_match_here_def)
  then show "has_ppt_ext s"
  proof cases
    case 1
    then have "length ext = 4" by (rule ci_equal_ppt_length)
    with 1 s show ?thesis by (simp add: has_ppt_ext_def)
  next
    case 2
    then have "length ext = 5" by (rule ci_equal_pptx_length)
    with 2 s show ?thesis by (simp add: has_ppt_ext_def)
  qed
qed

lemma toLowerCase_append: "toLowerCase (a @ b) = toLowerCase a @ toLowerCase b"
  by (simp add: toLowerCase_def)

lemma toLowerCase_PPT: "toLowerCase ''.PPT'' = ''.ppt''" "toLowerCase ''.PPTX'' = ''.pptx''"
  by (simp_all add: toLowerCase_def toLowerChar_def)

lemma endsWith_upper_not_lower:
  assumes "endsWith n ''.PPT'' \<or> endsWith n ''.PPTX''"
  shows "\<not> endsWith n ''.ppt''" "\<not> endsWith n ''.pptx''"
  using assms by (auto dest!: endsWith_last)

lemma endsWith_upper_lowercased:
  assumes "endsWith n ''.PPT'' \<or> endsWith n ''.PPTX''"
  shows "endsWith (toLowerCase n) ''.ppt'' \<or> endsWith (toLowerCase n) ''.pptx''"
proof -
  from assms obtain pre where "n = pre @ ''.PPT'' \<or> n = pre @ ''.PPTX''"
    by (auto simp: endsWith_iff)
  then have "toLowerCase n = toLowerCase pre @ ''.ppt'' \<or>
      toLowerCase n = toLowerCase pre @ ''.pptx''"
    by (auto simp only: toLowerCase_append toLowerCase_PPT)
  then show ?thesis unfolding endsWith_iff by blast
qed

section \<open>The derived file name\<close>

text \<open>
  Claim C4. The returned and the downloaded file name is the original name with its
  trailing PowerPoint extension replaced by \<open>.pdf\<close>: for every name \<open>base @ ext\<close> where
  \<open>ext\<close> is \<open>.ppt\<close> or \<open>.pptx\<close> in any letter case, the server's \<open>outputFileName\<close> and
  the client's download name are both \<open>base @ ''.pdf''\<close>.
\<close>

theorem outputFileName_swaps_extension:
  assumes "ci_equal ext ''.ppt'' \<or> ci_equal ext ''.pptx''"
  shows "outputFileName (base @ ext) = base @ ''.pdf'' \<and>
         downloadPdf_name (base @ ext) = base @ ''.pdf''"
  using assms replace_ppt_ext_suffix[of ext base]
  by (simp add: outputFileName_def downloadPdf_name_def ext_match_here_def)

theorem outputFileName_swaps_extension_witness:
  "ci_equal ''.pptx'' ''.pptx'' \<and> outputFileName ''deck.pptx'' = ''deck.pdf'' \<and>
   ci_equal ''.PPT'' ''.ppt'' \<and> outputFileName ''Slides.PPT'' = ''Slides.pdf'' \<and>
   downloadPdf_name ''Slides.PPT'' = ''Slides.pdf''"
proof -
  have a: "ci_equal ''.pptx'' ''.pptx''" by (simp add: ci_equal_def)
  have b: "ci_equal ''.PPT'' ''.ppt''" by (simp add: ci_equal_ppt toUpperChar_literals)
  from a have "outputFileName (''deck'' @ ''.pptx'') = ''deck'' @ ''.pdf''"
    using outputFileName_swaps_extension[of "''.pptx''" "''deck''"] by blast
  moreover from b have "outputFileName (''Slides'' @ ''.PPT'') = ''Slides'' @ ''.pdf'' \<and>
      downloadPdf_name (''Slides'' @ ''.PPT'') = ''Slides'' @ ''.pdf''"
    using outputFileName_swaps_extension[of "''.PPT''" "''Slides''"] by blast
  ultimately show ?thesis using a b by simp
qed

text \<open>
  Claim C10. Only a trailing \<open>.ppt\<close> or \<open>.pptx\<close> (any letter case) is replaced: for a
  file that the filter accepts by its MIME type and whose name does not end in either
  extension, the derived name is the original name, with no \<open>.pdf\<close> added.
\<close>

theorem outputFileName_unchanged_without_extension:
  assumes "mimetype file \<in> set validTypes" and "\<not> has_ppt_ext (originalname file)"
  shows "fileFilter file \<and> outputFileName (originalname file) = originalname file \<and>
         downloadPdf_name (originalname file) = originalname file"
proof -
  from assms(1) have "fileFilter file" by (auto simp: validTypes_def fileFilter_def)
  moreover have "replace_ppt_ext (originalname file) = originalname file"
    using assms(2) by (intro replace_ppt_ext_unchanged) (auto simp: has_ppt_ext_iff)
  ultimately show ?thesis by (simp add: outputFileName_def downloadPdf_name_def)
qed

theorem outputFileName_unchanged_without_extension_witness:
  "mimetype \<lparr>originalname = ''talk.key'', mimetype = ''application/vnd.ms-powerpoint'',
      size_up = 9\<rparr> \<in> set validTypes \<and>
   \<not> has_ppt_ext ''talk.key'' \<and>
   outputFileName ''talk.key'' = ''talk.key''"
proof -
  let ?f = "\<lparr>originalname = ''talk.key'', mimetype = ''application/vnd.ms-powerpoint'',
      size_up = 9\<rparr>"
  have a: "mimetype ?f \<in> set validTypes" by (simp add: validTypes_def)
  have b: "\<not> has_ppt_ext (originalname ?f)"
    by (simp add: has_ppt_ext_def ci_equal_ppt ci_equal_pptx toUpperChar_def)
  from outputFileName_unchanged_without_extension[OF a b] a b show ?thesis by simp
qed

section \<open>The type checks of server and client\<close>

lemma toLowerChar_eq_p: "toLowerChar c = CHR ''p'' \<longleftrightarrow> c = CHR ''p'' \<or> c = CHR ''P''"
  by (auto simp: toLowerChar_def split: if_splits)
lemma toLowerChar_eq_t: "toLowerChar c = CHR ''t'' \<longleftrightarrow> c = CHR ''t'' \<or> c = CHR ''T''"
  by (auto simp: toLowerChar_def split: if_splits)
lemma toLowerChar_eq_x: "toLowerChar c = CHR ''x'' \<longleftrightarrow> c = CHR ''x'' \<or> c = CHR ''X''"
  by (auto simp: toLowerChar_def split: if_splits)
lemma toLowerChar_eq_dot: "toLowerChar c = CHR ''.'' \<longleftrightarrow> c = CHR ''.''"
  by (auto simp: toLowerChar_def split: if_splits)

lemma toLowerCase_eq_ppt: "toLowerCase s = ''.ppt'' \<longleftrightarrow> ci_equal s ''.ppt''"
  unfolding ci_equal_ppt_variants
  by (auto simp: toLowerCase_def map_eq_Cons_conv toLowerChar_eq_p toLowerChar_eq_t
      toLowerChar_eq_dot)

lemma toLowerCase_eq_pptx: "toLowerCase s = ''.pptx'' \<longleftrightarrow> ci_equal s ''.pptx''"
  unfolding ci_equal_pptx_variants
  by (auto simp: toLowerCase_def map_eq_Cons_conv toLowerChar_eq_p toLowerChar_eq_t
      toLowerChar_eq_dot toLowerChar_eq_x)

lemma endsWith_toLowerCase:
  "endsWith (toLowerCase n) suf \<longleftrightarrow>
     length suf \<le> length n \<and> toLowerCase (drop (length n - length suf) n) = suf"
  by (simp add: endsWith_def toLowerCase_def drop_map)

lemma endsWith_toLowerCase_ppt:
  "endsWith (toLowerCase n) ''.ppt'' \<longleftrightarrow> ci_equal (drop (length n - 4) n) ''.ppt''"
proof -
  have len: "length ''.ppt'' = 4" by simp
  have l: "4 \<le> length n" if "ci_equal (drop (length n - 4) n) ''.ppt''"
    using ci_equal_ppt_length[OF that] by simp
  have "endsWith (toLowerCase n) ''.ppt'' \<longleftrightarrow>
      4 \<le> length n \<and> toLowerCase (drop (length n - 4) n) = ''.ppt''"
    using endsWith_toLowerCase[of n "''.ppt''"] unfolding len .
  also have "\<dots> \<longleftrightarrow> 4 \<le> length n \<and> ci_equal (drop (length n - 4) n) ''.ppt''"
    by (simp only: toLowerCase_eq_ppt)
  also have "\<dots> \<longleftrightarrow> ci_equal (drop (length n - 4) n) ''.ppt''"
    using l by blast
  finally show ?thesis .
qed

lemma endsWith_toLowerCase_pptx:
  "endsWith (toLowerCase n) ''.pptx'' \<longleftrightarrow> ci_equal (drop (length n - 5) n) ''.pptx''"
proof -
  have len: "length ''.pptx'' = 5" by simp
  have l: "5 \<le> length n" if "ci_equal (drop (length n - 5) n) ''.pptx''"
    using ci_equal_pptx_length[OF that] by simp
  have "endsWith (toLowerCase n) ''.pptx'' \<longleftrightarrow>
      5 \<le> length n \<and> toLowerCase (drop (length n - 5) n) = ''.pptx''"
    using endsWith_toLowerCase[of n "''.pptx''"] unfolding len .
  also have "\<dots> \<longleftrightarrow> 5 \<le> length n \<and> ci_equal (drop (length n - 5) n) ''.pptx''"
    by (simp only: toLowerCase_eq_pptx)
  also have "\<dots> \<longleftrightarrow> ci_equal (drop (length n - 5) n) ''.pptx''"
    using l by blast
  finally show ?thesis .
qed

lemma isValidPowerPointFile_iff:
  "type file \<notin> set validTypes \<Longrightarrow> isValidPowerPointFile file \<longleftrightarrow> has_ppt_ext (name file)"
  by (simp add: isValidPowerPointFile_def has_ppt_ext_def endsWith_toLowerCase_ppt
      endsWith_toLowerCase_pptx)

text \<open>
  Claim C9. The extension check of the server's upload filter is case-sensitive: for a
  file whose MIME type is outside the allow-list the filter accepts exactly when the name
  ends in lower case \<open>.ppt\<close> or \<open>.pptx\<close> (as does \<open>validateFileType\<close> of the client's
  \<open>FileUploadService\<close>). The check of the client's \<open>ConversionService\<close> lower-cases the
  name first, so it is case-insensitive: it accepts exactly when the name ends in
  \<open>.ppt\<close> or \<open>.pptx\<close> in any letter case. Hence a name ending in \<open>.PPT\<close> or
  \<open>.PPTX\<close>, or in any other variant that is not all lower case, passes the client check
  and is rejected by the server's filter.
\<close>

theorem fileFilter_extension_case_sensitive:
  assumes "m \<notin> set validTypes"
  shows "(fileFilter \<lparr>originalname = n, mimetype = m, size_up = k\<rparr> \<longleftrightarrow>
            endsWith n ''.ppt'' \<or> endsWith n ''.pptx'') \<and>
         (validateFileType \<lparr>name = n, type = m, size_bytes = k\<rparr> \<longleftrightarrow>
            endsWith n ''.ppt'' \<or> endsWith n ''.pptx'') \<and>
         (isValidPowerPointFile \<lparr>name = n, type = m, size_bytes = k\<rparr> \<longleftrightarrow>
            has_ppt_ext n) \<and>
         (endsWith n ''.PPT'' \<or> endsWith n ''.PPTX'' \<longrightarrow>
            \<not> fileFilter \<lparr>originalname = n, mimetype = m, size_up = k\<rparr> \<and>
            isValidPowerPointFile \<lparr>name = n, type = m, size_bytes = k\<rparr>) \<and>
         (has_ppt_ext n \<and> \<not> endsWith n ''.ppt'' \<and> \<not> endsWith n ''.pptx'' \<longrightarrow>
            \<not> fileFilter \<lparr>originalname = n, mimetype = m, size_up = k\<rparr> \<and>
            isValidPowerPointFile \<lparr>name = n, type = m, size_bytes = k\<rparr>)"
proof -
  from assms have m: "m \<noteq> ''application/vnd.ms-powerpoint''"
    "m \<noteq> ''application/vnd.openxmlformats-officedocument.presentationml.presentation''"
    by (auto simp: validTypes_def)
  have 1: "fileFilter \<lparr>originalname = n, mimetype = m, size_up = k\<rparr> \<longleftrightarrow>
            endsWith n ''.ppt'' \<or> endsWith n ''.pptx''"
    using m by (simp add: fileFilter_def)
  have 2: "validateFileType \<lparr>name = n, type = m, size_bytes = k\<rparr> \<longleftrightarrow>
            endsWith n ''.ppt'' \<or> endsWith n ''.pptx''"
    using assms by (simp add: validateFileType_def)
  have 3: "isValidPowerPointFile \<lparr>name = n, type = m, size_bytes = k\<rparr> \<longleftrightarrow> has_ppt_ext n"
    using assms isValidPowerPointFile_iff[of "\<lparr>name = n, type = m, size_bytes = k\<rparr>"] by simp
  have 4: "isValidPowerPointFile \<lparr>name = n, type = m, size_bytes = k\<rparr>"
    if "endsWith n ''.PPT'' \<or> endsWith n ''.PPTX''"
    using endsWith_upper_lowercased[OF that] by (auto simp: isValidPowerPointFile_def)
  from 1 2 3 4 endsWith_upper_not_lower show ?thesis by blast
qed

theorem fileFilter_extension_case_sensitive_witness:
  "''image/png'' \<notin> set validTypes \<and> endsWith ''Slides.PPT'' ''.PPT'' \<and>
   \<not> fileFilter \<lparr>originalname = ''Slides.PPT'', mimetype = ''image/png'', size_up = 7\<rparr> \<and>
   isValidPowerPointFile \<lparr>name = ''Slides.PPT'', type = ''image/png'', size_bytes = 7\<rparr> \<and>
   has_ppt_ext ''Slides.PpT'' \<and>
   \<not> fileFilter \<lparr>originalname = ''Slides.PpT'', mimetype = ''image/png'', size_up = 7\<rparr> \<and>
   isValidPowerPointFile \<lparr>name = ''Slides.PpT'', type = ''image/png'', size_bytes = 7\<rparr> \<and>
   \<not> has_ppt_ext ''notes.txt'' \<and>
   \<not> isValidPowerPointFile \<lparr>name = ''notes.txt'', type = ''image/png'', size_bytes = 7\<rparr>"
proof -
  have a: "''image/png'' \<notin> set validTypes" by (simp add: validTypes_def)
  have b: "endsWith ''Slides.PPT'' ''.PPT''" by (simp add: endsWith_def)
  have c: "has_ppt_ext ''Slides.PpT''"
    by (simp add: has_ppt_ext_def ci_equal_ppt ci_equal_pptx toUpperChar_def)
  have d: "\<not> endsWith ''Slides.PpT'' ''.ppt''" "\<not> endsWith ''Slides.PpT'' ''.pptx''"
    by (simp_all add: endsWith_def)
  have e: "\<not> has_ppt_ext ''notes.txt''"
    by (simp add: has_ppt_ext_def ci_equal_ppt ci_equal_pptx toUpperChar_def)
  from fileFilter_extension_case_sensitive[OF a, of "''Slides.PPT''" 7] fileFilter_extension_case_sensitive[OF a, of "''Slides.PpT''" 7]
       fileFilter_extension_case_sensitive[OF a, of "''notes.txt''" 7] a b c d e
  show ?thesis by blast
qed

section \<open>Rejected uploads\<close>

lemma not_fileFilter_iff:
  "\<not> fileFilter file \<longleftrightarrow>
     mimetype file \<notin> set validTypes \<and> \<not> endsWith (originalname file) ''.ppt'' \<and>
     \<not> endsWith (originalname file) ''.pptx''"
  by (auto simp: fileFilter_def validTypes_def)

lemma post_api_convert_filtered:
  "\<not> fileFilter file \<Longrightarrow> post_api_convert w (Some file) = (framework_error 500, [])"
  by (simp add: post_api_convert_def upload_single_def)

lemma post_api_convert_oversized:
  "size_up file > fileSize_limit \<Longrightarrow>
   post_api_convert w (Some file) = (framework_error 500, [])"
  by (simp add: post_api_convert_def upload_single_def)

lemma post_api_convert_accepted:
  "fileFilter file \<Longrightarrow> size_up file \<le> fileSize_limit \<Longrightarrow>
   post_api_convert w (Some file) =
     convert_handler w (Some \<lparr>originalname = originalname file, mimetype = mimetype file,
        size_up = size_up file,
        path = storage_destination @ storage_filename (now w) file\<rparr>)"
  by (simp add: post_api_convert_def upload_single_def)

text \<open>
  Claim C1, as stated: an upload whose MIME type and extension are both outside the
  allow-list is answered with status 400. It is not: the filter hands an error to the
  middleware, the handler (the only place that answers 400) never runs, and the status
  is the framework's 500. Shown for a text file.
\<close>

theorem disallowed_upload_status_not_400:
  "mimetype \<lparr>originalname = ''notes.txt'', mimetype = ''text/plain'', size_up = 12\<rparr>
      \<notin> set validTypes \<and>
   \<not> endsWith ''notes.txt'' ''.ppt'' \<and> \<not> endsWith ''notes.txt'' ''.pptx'' \<and>
   status (fst (post_api_convert
      \<lparr>now = 1000, create_result = Inr (Some ''id1''), export_result = None,
       writeFile_result = None, delete_result = None, unlink_result = (\<lambda>p. None)\<rparr>
      (Some \<lparr>originalname = ''notes.txt'', mimetype = ''text/plain'', size_up = 12\<rparr>)))
     \<noteq> 400"
  by (simp add: validTypes_def endsWith_def post_api_convert_def upload_single_def
      fileFilter_def)

text \<open>
  Claim C1, amended: an upload whose MIME type is neither of the two PowerPoint types
  and whose name ends in neither \<open>.ppt\<close> nor \<open>.pptx\<close> is rejected by the upload
  middleware with the error \<open>Only PowerPoint files are allowed!\<close> before the handler
  runs; the response has status 500 and nothing is done to the outside, so no remote
  call (create, export or delete) is made.
\<close>

theorem disallowed_upload_rejected_without_remote_call:
  assumes "mimetype file \<notin> set validTypes"
    and "\<not> endsWith (originalname file) ''.ppt''"
    and "\<not> endsWith (originalname file) ''.pptx''"
  shows "upload_single w (Some file) = next_error (Error ''Only PowerPoint files are allowed!'') \<and>
         post_api_convert w (Some file) = (framework_error 500, []) \<and>
         status (fst (post_api_convert w (Some file))) = 500 \<and>
         filter is_remote (snd (post_api_convert w (Some file))) = []"
proof -
  from assms have "\<not> fileFilter file" by (simp add: not_fileFilter_iff)
  then show ?thesis by (simp add: post_api_convert_filtered upload_single_def)
qed

theorem disallowed_upload_rejected_without_remote_call_witness:
  "mimetype \<lparr>originalname = ''notes.txt'', mimetype = ''text/plain'', size_up = 12\<rparr>
      \<notin> set validTypes \<and>
   \<not> endsWith ''notes.txt'' ''.ppt'' \<and> \<not> endsWith ''notes.txt'' ''.pptx'' \<and>
   upload_single
      \<lparr>now = 1000, create_result = Inr (Some ''id1''), export_result = None,
       writeFile_result = None, delete_result = None, unlink_result = (\<lambda>p. None)\<rparr>
      (Some \<lparr>originalname = ''notes.txt'', mimetype = ''text/plain'', size_up = 12\<rparr>)
     = next_error (Error ''Only PowerPoint files are allowed!'') \<and>
   post_api_convert
      \<lparr>now = 1000, create_result = Inr (Some ''id1''), export_result = None,
       writeFile_result = None, delete_result = None, unlink_result = (\<lambda>p. None)\<rparr>
      (Some \<lparr>originalname = ''notes.txt'', mimetype = ''text/plain'', size_up = 12\<rparr>)
     = (framework_error 500, [])"
proof -
  let ?f = "\<lparr>originalname = ''notes.txt'', mimetype = ''text/plain'', size_up = 12\<rparr>"
  have a: "mimetype ?f \<notin> set validTypes" by (simp add: validTypes_def)
  have b: "\<not> endsWith (originalname ?f) ''.ppt''" by (simp add: endsWith_def)
  have c: "\<not> endsWith (originalname ?f) ''.pptx''" by (simp add: endsWith_def)
  from disallowed_upload_rejected_without_remote_call[OF a b c] a b c
  show ?thesis by simp
qed

text \<open>
  Claim C6. An upload larger than the ceiling of 50 * 1024 * 1024 bytes is rejected
  before any remote call: the run does nothing to the outside, so it has no remote
  create, export or delete.
\<close>

theorem oversized_upload_makes_no_remote_call:
  assumes "size_up file > 50 * 1024 * 1024"
  shows "post_api_convert w (Some file) = (framework_error 500, []) \<and>
         filter is_remote (snd (post_api_convert w (Some file))) = []"
proof (cases "fileFilter file")
  case True
  with assms show ?thesis by (simp add: post_api_convert_oversized fileSize_limit_def)
next
  case False
  then show ?thesis by (simp add: post_api_convert_filtered)
qed

theorem oversized_upload_makes_no_remote_call_witness:
  "size_up \<lparr>originalname = ''big.pptx'', mimetype = ''application/vnd.ms-powerpoint'',
      size_up = 52428801\<rparr> > 50 * 1024 * 1024 \<and>
   post_api_convert
      \<lparr>now = 1000, create_result = Inr (Some ''id1''), export_result = None,
       writeFile_result = None, delete_result = None, unlink_result = (\<lambda>p. None)\<rparr>
      (Some \<lparr>originalname = ''big.pptx'', mimetype = ''application/vnd.ms-powerpoint'',
      size_up = 52428801\<rparr>) = (framework_error 500, [])"
proof -
  let ?f = "\<lparr>originalname = ''big.pptx'', mimetype = ''application/vnd.ms-powerpoint'',
      size_up = 52428801\<rparr>"
  have a: "size_up ?f > 50 * 1024 * 1024" by simp
  from oversized_upload_makes_no_remote_call[OF a] a show ?thesis by simp
qed

section \<open>Failure of the export\<close>

text \<open>
  Claim C3. When the remote create call has returned an id and the remote export call
  throws, the response is 500 with a JSON body whose \<open>details\<close> text starts with
  \<open>Failed to convert to PDF\<close>, and the cleanup that follows the two remote calls
  attempts the deletion of the remote file with the id that create returned.
\<close>

theorem export_failure_reported_and_remote_file_deleted:
  assumes "fileFilter file" and "size_up file \<le> fileSize_limit"
    and "create_result w = Inr (Some fid)" and "fid \<noteq> []"
    and "export_result w = Some err"
  shows "fst (post_api_convert w (Some file)) =
           json 500 [(''error'', ''Error converting file to PDF''),
                     (''details'', ''Failed to convert to PDF: '' @ message_of err)] \<and>
         snd (post_api_convert w (Some file)) =
           [drive_create (originalname file), drive_export fid] @
           cleanupFiles w (Some fid)
             (Some (storage_destination @ storage_filename (now w) file)) None \<and>
         drive_delete fid \<in> set (snd (post_api_convert w (Some file)))"
proof -
  have c: "drive_delete fid \<in> set (cleanupFiles w (Some fid) t None)" for t
    using assms(4) by (cases "delete_result w") (auto simp: cleanupFiles_def)
  show ?thesis
    using assms c
    by (simp add: post_api_convert_accepted convert_handler_def on_error_def Let_def)
qed

theorem export_failure_reported_and_remote_file_deleted_witness:
  "fileFilter \<lparr>originalname = ''deck.pptx'', mimetype = ''application/vnd.ms-powerpoint'',
      size_up = 2048\<rparr> \<and>
   fst (post_api_convert
      \<lparr>now = 1000, create_result = Inr (Some ''id1''),
       export_result = Some (Error ''timeout''),
       writeFile_result = None, delete_result = None, unlink_result = (\<lambda>p. None)\<rparr>
      (Some \<lparr>originalname = ''deck.pptx'', mimetype = ''application/vnd.ms-powerpoint'',
         size_up = 2048\<rparr>)) =
     json 500 [(''error'', ''Error converting file to PDF''),
               (''details'', ''Failed to convert to PDF: timeout'')] \<and>
   drive_delete ''id1'' \<in> set (snd (post_api_convert
      \<lparr>now = 1000, create_result = Inr (Some ''id1''),
       export_result = Some (Error ''timeout''),
       writeFile_result = None, delete_result = None, unlink_result = (\<lambda>p. None)\<rparr>
      (Some \<lparr>originalname = ''deck.pptx'', mimetype = ''application/vnd.ms-powerpoint'',
         size_up = 2048\<rparr>)))"
proof -
  let ?f = "\<lparr>originalname = ''deck.pptx'', mimetype = ''application/vnd.ms-powerpoint'',
      size_up = 2048\<rparr>"
  let ?w = "\<lparr>now = 1000, create_result = Inr (Some ''id1''),
       export_result = Some (Error ''timeout''),
       writeFile_result = None, delete_result = None, unlink_result = (\<lambda>p. None)\<rparr>"
  have a: "fileFilter ?f" by (simp add: fileFilter_def)
  have b: "size_up ?f \<le> fileSize_limit" by (simp add: fileSize_limit_def)
  have c: "create_result ?w = Inr (Some ''id1'')" by simp
  have d: "''id1'' \<noteq> []" by simp
  have e: "export_result ?w = Some (Error ''timeout'')" by simp
  note r = export_failure_reported_and_remote_file_deleted[OF a b c d e]
  from r have 1: "fst (post_api_convert ?w (Some ?f)) =
     json 500 [(''error'', ''Error converting file to PDF''),
               (''details'', ''Failed to convert to PDF: '' @ message_of (Error ''timeout''))]"
    by (rule conjunct1)
  have 2: "drive_delete ''id1'' \<in> set (snd (post_api_convert ?w (Some ?f)))"
    by (rule r[THEN conjunct2, THEN conjunct2])
  from 1 2 a show ?thesis by simp
qed

section \<open>Cleanup\<close>










section \<open>Scratch file names\<close>

lemma digit_char_inj: "d < 10 \<Longrightarrow> e < 10 \<Longrightarrow> digit_char d = digit_char e \<Longrightarrow> d = e"
proof -
  assume d: "d < 10" and e: "e < 10" and eq: "digit_char d = digit_char e"
  have "distinct ''0123456789''" by simp
  moreover have "d < length ''0123456789''" "e < length ''0123456789''" using d e by simp_all
  ultimately show "d = e" using eq unfolding digit_char_def
    by (simp only: nth_eq_iff_index_eq)
qed

lemma digit_char_not_dash: "d < 10 \<Longrightarrow> digit_char d \<noteq> CHR ''-''"
proof -
  assume "d < 10"
  then have "d < length ''0123456789''" by simp
  then have "''0123456789'' ! d \<in> set ''0123456789''" by (rule nth_mem)
  then show ?thesis unfolding digit_char_def by auto
qed

lemma string_of_nat_nonempty: "string_of_nat n \<noteq> []"
  by (subst string_of_nat.simps) simp

lemma string_of_nat_no_dash: "CHR ''-'' \<notin> set (string_of_nat n)"
proof (induction n rule: string_of_nat.induct)
  case (1 n)
  show ?case
  proof (cases "n < 10")
    case True
    then show ?thesis using digit_char_not_dash[of n]
      by (subst string_of_nat.simps) auto
  next
    case False
    have "n mod 10 < 10" by simp
    then have "digit_char (n mod 10) \<noteq> CHR ''-''" by (rule digit_char_not_dash)
    with False 1 show ?thesis
      by (subst string_of_nat.simps) auto
  qed
qed

lemma string_of_nat_inj: "string_of_nat n = string_of_nat m \<Longrightarrow> n = m"
proof (induction n arbitrary: m rule: string_of_nat.induct)
  case (1 n)
  show ?case
  proof (cases "n < 10")
    case n: True
    show ?thesis
    proof (cases "m < 10")
      case True
      with n "1.prems" show ?thesis
        by (simp add: string_of_nat.simps[of n] string_of_nat.simps[of m] digit_char_inj)
    next
      case False
      with n "1.prems" string_of_nat_nonempty[of "m div 10"] show ?thesis
        by (simp add: string_of_nat.simps[of n] string_of_nat.simps[of m])
    qed
  next
    case n: False
    show ?thesis
    proof (cases "m < 10")
      case True
      with n "1.prems" string_of_nat_nonempty[of "n div 10"] show ?thesis
        by (simp add: string_of_nat.simps[of n] string_of_nat.simps[of m])
    next
      case False
      with n "1.prems" have eq: "string_of_nat (n div 10) = string_of_nat (m div 10)"
        and d: "digit_char (n mod 10) = digit_char (m mod 10)"
        by (simp_all add: string_of_nat.simps[of n] string_of_nat.simps[of m])
      from "1.IH"[OF n eq] have "n div 10 = m div 10" .
      moreover from d have "n mod 10 = m mod 10" by (intro digit_char_inj) simp_all
      ultimately show ?thesis by (metis div_mult_mod_eq)
    qed
  qed
qed

lemma split_at_first:
  "x \<notin> set xs \<Longrightarrow> x \<notin> set xs' \<Longrightarrow> xs @ x # ys = xs' @ x # ys' \<Longrightarrow> xs = xs' \<and> ys = ys'"
proof (induction xs arbitrary: xs')
  case Nil
  then show ?case by (cases xs') auto
next
  case (Cons a xs)
  then show ?case by (cases xs') auto
qed

lemma storage_filename_inj:
  "storage_filename t1 f1 = storage_filename t2 f2 \<longleftrightarrow>
     t1 = t2 \<and> originalname f1 = originalname f2"
proof
  assume "storage_filename t1 f1 = storage_filename t2 f2"
  then have "string_of_nat t1 @ CHR ''-'' # originalname f1 =
             string_of_nat t2 @ CHR ''-'' # originalname f2"
    by (simp add: storage_filename_def)
  then have "string_of_nat t1 = string_of_nat t2 \<and> originalname f1 = originalname f2"
    using string_of_nat_no_dash by (intro split_at_first) auto
  then show "t1 = t2 \<and> originalname f1 = originalname f2"
    by (auto dest: string_of_nat_inj)
next
  assume "t1 = t2 \<and> originalname f1 = originalname f2"
  then show "storage_filename t1 f1 = storage_filename t2 f2"
    by (simp add: storage_filename_def)
qed

lemma touched_files_append: "touched_files (xs @ ys) = touched_files xs @ touched_files ys"
  by (induction xs rule: touched_files.induct) simp_all

lemma touched_files_mem:
  "p \<in> set (touched_files es) \<longleftrightarrow> writeFile p \<in> set es \<or> unlink p \<in> set es"
  by (induction es rule: touched_files.induct) auto

lemma try_block_subset: "set (try_block xs) \<subseteq> fst ` set xs"
  by (induction xs rule: try_block.induct) auto

lemma cleanupFiles_touches:
  "set (touched_files (cleanupFiles w i (Some t) out)) \<subseteq> {t} \<union> set_option out"
proof
  fix p
  assume "p \<in> set (touched_files (cleanupFiles w i (Some t) out))"
  then have "unlink p \<in> set (cleanupFiles w i (Some t) out)"
    using try_block_subset by (fastforce simp: touched_files_mem cleanupFiles_def split: if_splits)
  then have "unlink p \<in> fst ` set
       ((if truthy i then [(drive_delete (the i), delete_result w)] else []) @
        (if truthy (Some t) then [(unlink t, unlink_result w t)] else []) @
        (if truthy out then [(unlink (the out), unlink_result w (the out))] else []))"
    using try_block_subset unfolding cleanupFiles_def by fastforce
  then show "p \<in> {t} \<union> set_option out"
    by (cases out) (auto split: if_splits)
qed

lemma convert_handler_touches:
  "set (touched_files (snd (convert_handler w (Some f)))) \<subseteq>
     {path f, join_uploads (outputFileName (originalname f))}"
  using cleanupFiles_touches[of w _ "path f" None]
        cleanupFiles_touches[of w _ "path f"
          "Some (join_uploads (outputFileName (originalname f)))"]
  by (auto simp: convert_handler_def on_error_def Let_def touched_files_append
      split: sum.split option.split)

lemma post_api_convert_touches:
  "set (touched_files (snd (post_api_convert w (Some file)))) \<subseteq>
     set (scratch_paths \<lparr>arrived = now w, file_name = originalname file\<rparr>)"
proof (cases "fileFilter file \<and> size_up file \<le> fileSize_limit")
  case True
  then show ?thesis
    using convert_handler_touches[of w
        "\<lparr>originalname = originalname file, mimetype = mimetype file,
          size_up = size_up file,
          path = storage_destination @ storage_filename (now w) file\<rparr>"]
    by (simp add: post_api_convert_accepted scratch_paths_def temp_path_def output_path_def
        storage_filename_def)
next
  case False
  then show ?thesis
    by (auto simp: post_api_convert_def upload_single_def)
qed

lemma scratch_paths_disjoint_iff:
  "set (scratch_paths r1) \<inter> set (scratch_paths r2) = {} \<longleftrightarrow>
      (arrived r1 \<noteq> arrived r2 \<or> file_name r1 \<noteq> file_name r2) \<and>
      outputFileName (file_name r1) \<noteq> outputFileName (file_name r2) \<and>
      string_of_nat (arrived r1) @ ''-'' @ file_name r1 \<noteq> outputFileName (file_name r2) \<and>
      string_of_nat (arrived r2) @ ''-'' @ file_name r2 \<noteq> outputFileName (file_name r1)"
proof -
  have tt: "temp_path r1 = temp_path r2 \<longleftrightarrow>
      arrived r1 = arrived r2 \<and> file_name r1 = file_name r2"
    by (simp add: temp_path_def storage_filename_inj)
  have oo: "output_path r1 = output_path r2 \<longleftrightarrow>
      outputFileName (file_name r1) = outputFileName (file_name r2)"
    by (simp add: output_path_def join_uploads_def)
  have to: "temp_path a = output_path b \<longleftrightarrow>
      string_of_nat (arrived a) @ ''-'' @ file_name a = outputFileName (file_name b)" for a b
    by (simp add: temp_path_def output_path_def join_uploads_def storage_destination_def
        storage_filename_def)
  have "set (scratch_paths r1) \<inter> set (scratch_paths r2) = {} \<longleftrightarrow>
     temp_path r1 \<noteq> temp_path r2 \<and> output_path r1 \<noteq> output_path r2 \<and>
     temp_path r1 \<noteq> output_path r2 \<and> temp_path r2 \<noteq> output_path r1"
    by (auto simp: scratch_paths_def)
  then show ?thesis unfolding tt oo to[of r1 r2] to[of r2 r1] by blast
qed

lemma string_of_nat_1000: "string_of_nat 1000 = ''1000''"
  by (simp add: string_of_nat.simps digit_char_def)

lemma string_of_nat_2000: "string_of_nat 2000 = ''2000''"
  by (simp add: string_of_nat.simps digit_char_def)

text \<open>The stored upload of one request can also be the output file of another: both
  of these uploads pass the filter.\<close>

lemma temp_path_can_equal_output_path:
  "fileFilter \<lparr>originalname = ''x.pdf'', mimetype = ''application/vnd.ms-powerpoint'',
      size_up = 1\<rparr> \<and>
   fileFilter \<lparr>originalname = ''1000-x.pptx'', mimetype = [], size_up = 1\<rparr> \<and>
   temp_path \<lparr>arrived = 1000, file_name = ''x.pdf''\<rparr> =
   output_path \<lparr>arrived = 2000, file_name = ''1000-x.pptx''\<rparr>"
  by (simp add: temp_path_def output_path_def storage_destination_def storage_filename_def
      join_uploads_def string_of_nat_1000 outputFileName_def ext_match_here_def ci_equal_def
      toUpperChar_def fileFilter_def endsWith_def)

text \<open>
  Claim C5, as stated: the scratch paths of two distinct requests are distinct. They
  are not: the output path is derived from the original file name alone, so two
  requests that arrive at different times with the same file name write the same
  output file.
\<close>

theorem output_path_shared_by_distinct_requests:
  "\<lparr>arrived = 1000, file_name = ''deck.pptx''\<rparr> \<noteq>
     \<lparr>arrived = 2000, file_name = ''deck.pptx''\<rparr> \<and>
   output_path \<lparr>arrived = 1000, file_name = ''deck.pptx''\<rparr> =
   output_path \<lparr>arrived = 2000, file_name = ''deck.pptx''\<rparr>"
  by (simp add: output_path_def)

text \<open>
  Claim C5, amended: the scratch paths of two requests (for each, the stored upload
  \<open>uploads/<arrival time>-<original name>\<close> and the output file
  \<open>uploads/<derived name>\<close>) are all distinct from one another exactly when the
  arrival times (in milliseconds) or the original names differ, the derived output
  names differ, and the stored name of neither request is the derived output name of
  the other. Every local file that the run of a request writes or unlinks is one of its
  own scratch paths, so when the scratch paths of two requests are distinct in this way
  neither run touches, in its conversion or its cleanup, a scratch file of the other.
\<close>

theorem scratch_paths_of_two_requests:
  "(set (scratch_paths r1) \<inter> set (scratch_paths r2) = {} \<longleftrightarrow>
      (arrived r1 \<noteq> arrived r2 \<or> file_name r1 \<noteq> file_name r2) \<and>
      outputFileName (file_name r1) \<noteq> outputFileName (file_name r2) \<and>
      string_of_nat (arrived r1) @ ''-'' @ file_name r1 \<noteq> outputFileName (file_name r2) \<and>
      string_of_nat (arrived r2) @ ''-'' @ file_name r2 \<noteq> outputFileName (file_name r1)) \<and>
   set (touched_files (snd (post_api_convert w (Some file)))) \<subseteq>
     set (scratch_paths \<lparr>arrived = now w, file_name = originalname file\<rparr>) \<and>
   (set (scratch_paths \<lparr>arrived = now w, file_name = originalname file\<rparr>) \<inter>
      set (scratch_paths r2) = {} \<longrightarrow>
    set (touched_files (snd (post_api_convert w (Some file)))) \<inter> set (scratch_paths r2) = {})"
  using scratch_paths_disjoint_iff[of r1 r2] post_api_convert_touches[of w "file"] by blast

theorem scratch_paths_of_two_requests_witness:
  "set (scratch_paths \<lparr>arrived = 1000, file_name = ''deck.pptx''\<rparr>) \<inter>
   set (scratch_paths \<lparr>arrived = 2000, file_name = ''talk.ppt''\<rparr>) = {} \<and>
   set (touched_files (snd (post_api_convert
      \<lparr>now = 1000, create_result = Inr (Some ''id1''), export_result = None,
       writeFile_result = None, delete_result = None, unlink_result = (\<lambda>p. None)\<rparr>
      (Some \<lparr>originalname = ''deck.pptx'', mimetype = ''application/vnd.ms-powerpoint'',
         size_up = 2048\<rparr>)))) \<inter>
   set (scratch_paths \<lparr>arrived = 2000, file_name = ''talk.ppt''\<rparr>) = {}"
proof -
  let ?r1 = "\<lparr>arrived = 1000, file_name = ''deck.pptx''\<rparr>"
  let ?r2 = "\<lparr>arrived = 2000, file_name = ''talk.ppt''\<rparr>"
  let ?w = "\<lparr>now = 1000, create_result = Inr (Some ''id1''), export_result = None,
       writeFile_result = None, delete_result = None, unlink_result = (\<lambda>p. None)\<rparr>"
  let ?f = "\<lparr>originalname = ''deck.pptx'', mimetype = ''application/vnd.ms-powerpoint'',
         size_up = 2048\<rparr>"
  have o1: "outputFileName ''deck.pptx'' = ''deck.pdf''"
    by (simp add: outputFileName_def ext_match_here_def ci_equal_def toUpperChar_def)
  have o2: "outputFileName ''talk.ppt'' = ''talk.pdf''"
    by (simp add: outputFileName_def ext_match_here_def ci_equal_def toUpperChar_def)
  note t = scratch_paths_of_two_requests[of ?r1 ?r2 ?w ?f]
  have d: "set (scratch_paths ?r1) \<inter> set (scratch_paths ?r2) = {}"
    using t[THEN conjunct1] by (simp add: o1 o2 string_of_nat_1000 string_of_nat_2000)
  have "set (scratch_paths \<lparr>arrived = now ?w, file_name = originalname ?f\<rparr>) \<inter>
      set (scratch_paths ?r2) = {}" using d by simp
  with t[THEN conjunct2, THEN conjunct2] have
    "set (touched_files (snd (post_api_convert ?w (Some ?f)))) \<inter> set (scratch_paths ?r2) = {}"
    by (rule mp)
  with d show ?thesis by (rule conjI)
qed

section \<open>The client form\<close>

text \<open>
  Claim C7. On selection, a file that fails the type check or the size check is
  rejected: the error message is set and \<open>selectedFile\<close> becomes null; a file that
  passes both is selected. For every file, the size check accepts it exactly when its
  size is at most 10 * 1024 * 1024 bytes, a limit below the server's 50 * 1024 * 1024.
\<close>

theorem onFileSelected_rejects_invalid_file:
  "((\<not> validateFileType file \<or> \<not> validateFileSize file) \<longrightarrow>
      selectedFile (onFileSelected (file # rest) c) = None \<and>
      errorMessage (onFileSelected (file # rest) c) =
        (if \<not> validateFileType file
         then ''Please select a PowerPoint file (.ppt or .pptx)''
         else ''File size exceeds the maximum limit of 10MB'')) \<and>
   (validateFileType file \<and> validateFileSize file \<longrightarrow>
      selectedFile (onFileSelected (file # rest) c) = Some file \<and>
      errorMessage (onFileSelected (file # rest) c) = []) \<and>
   (validateFileSize file \<longleftrightarrow> size_bytes file \<le> 10 * 1024 * 1024) \<and>
   maxFileSize < fileSize_limit"
  by (auto simp: onFileSelected_def validateFileSize_def maxFileSize_def fileSize_limit_def)

theorem onFileSelected_rejects_invalid_file_witness:
  "\<not> validateFileSize \<lparr>name = ''big.pptx'', type = [], size_bytes = 10485761\<rparr> \<and>
   selectedFile (onFileSelected [\<lparr>name = ''big.pptx'', type = [], size_bytes = 10485761\<rparr>]
     \<lparr>isLoading = False, errorMessage = [], successMessage = [],
      selectedFile = Some \<lparr>name = ''deck.pptx'', type = [], size_bytes = 2048\<rparr>,
      conversionStatus = [], uploadProgress = 0, progressInterval = False\<rparr>) = None \<and>
   errorMessage (onFileSelected [\<lparr>name = ''big.pptx'', type = [], size_bytes = 10485761\<rparr>]
     \<lparr>isLoading = False, errorMessage = [], successMessage = [],
      selectedFile = Some \<lparr>name = ''deck.pptx'', type = [], size_bytes = 2048\<rparr>,
      conversionStatus = [], uploadProgress = 0, progressInterval = False\<rparr>) =
     ''File size exceeds the maximum limit of 10MB'' \<and>
   validateFileType \<lparr>name = ''deck.pptx'', type = [], size_bytes = 10485760\<rparr> \<and>
   validateFileSize \<lparr>name = ''deck.pptx'', type = [], size_bytes = 10485760\<rparr> \<and>
   selectedFile (onFileSelected [\<lparr>name = ''deck.pptx'', type = [], size_bytes = 10485760\<rparr>]
     \<lparr>isLoading = False, errorMessage = [], successMessage = [],
      selectedFile = None,
      conversionStatus = [], uploadProgress = 0, progressInterval = False\<rparr>) =
     Some \<lparr>name = ''deck.pptx'', type = [], size_bytes = 10485760\<rparr>"
proof -
  let ?f = "\<lparr>name = ''big.pptx'', type = [], size_bytes = 10485761\<rparr>"
  let ?g = "\<lparr>name = ''deck.pptx'', type = [], size_bytes = 10485760\<rparr>"
  let ?c = "\<lparr>isLoading = False, errorMessage = [], successMessage = [],
      selectedFile = Some \<lparr>name = ''deck.pptx'', type = [], size_bytes = 2048\<rparr>,
      conversionStatus = [], uploadProgress = 0, progressInterval = False\<rparr>"
  let ?d = "\<lparr>isLoading = False, errorMessage = [], successMessage = [],
      selectedFile = None,
      conversionStatus = [], uploadProgress = 0, progressInterval = False\<rparr>"
  have a: "\<not> validateFileSize ?f" by (simp add: validateFileSize_def maxFileSize_def)
  have t: "validateFileType ?f" by (simp add: validateFileType_def endsWith_def)
  have gt: "validateFileType ?g" by (simp add: validateFileType_def endsWith_def)
  have gs: "validateFileSize ?g" by (simp add: validateFileSize_def maxFileSize_def)
  from a have b: "\<not> validateFileType ?f \<or> \<not> validateFileSize ?f" by simp
  have 1: "selectedFile (onFileSelected [?f] ?c) = None \<and>
      errorMessage (onFileSelected [?f] ?c) =
        (if \<not> validateFileType ?f
         then ''Please select a PowerPoint file (.ppt or .pptx)''
         else ''File size exceeds the maximum limit of 10MB'')"
    using onFileSelected_rejects_invalid_file[of ?f "[]" ?c, THEN conjunct1] b by (rule mp)
  have 2: "selectedFile (onFileSelected [?g] ?d) = Some ?g \<and>
      errorMessage (onFileSelected [?g] ?d) = []"
    using onFileSelected_rejects_invalid_file[of ?g "[]" ?d, THEN conjunct2, THEN conjunct1] gt gs by blast
  from 1 2 a t gt gs show ?thesis by simp
qed

subsection \<open>The simulated progress\<close>

lemma interval_callback_progress:
  "uploadProgress (interval_callback c) =
     (if uploadProgress c < 90 then uploadProgress c + 10 else uploadProgress c)"
  by (simp add: interval_callback_def Let_def)

lemma interval_callback_timer: "progressInterval (interval_callback c) = progressInterval c"
  by (simp add: interval_callback_def Let_def)

lemma step_inv:
  assumes "in_flight_inv c" and "e \<noteq> response_arrived"
  shows "in_flight_inv (step e c)"
proof (cases e)
  case tick
  from assms(1) have "uploadProgress c \<le> 90" "10 dvd uploadProgress c"
    by (simp_all add: in_flight_inv_def)
  then have "uploadProgress c < 90 \<Longrightarrow> uploadProgress c + 10 \<le> 90" by presburger
  with assms(1) tick show ?thesis
    by (auto simp: in_flight_inv_def interval_callback_progress)
next
  case response_arrived
  with assms(2) show ?thesis by simp
next
  case (request_failed msg)
  then show ?thesis by (simp add: in_flight_inv_def on_error_callback_def)
qed

lemma run_inv:
  "in_flight_inv c \<Longrightarrow> response_arrived \<notin> set es \<Longrightarrow> in_flight_inv (run es c)"
proof (induction es arbitrary: c)
  case Nil
  then show ?case by simp
next
  case (Cons e es)
  then have "in_flight_inv (step e c)" by (intro step_inv) auto
  with Cons show ?case by simp
qed

lemma run_ticks:
  "progressInterval c \<Longrightarrow> 10 dvd uploadProgress c \<Longrightarrow> uploadProgress c \<le> 90 \<Longrightarrow>
   uploadProgress (run (replicate n tick) c) = min (uploadProgress c + 10 * n) 90 \<and>
   progressInterval (run (replicate n tick) c)"
proof (induction n arbitrary: c)
  case 0
  then show ?case by simp
next
  case (Suc n)
  let ?c = "interval_callback c"
  have p: "uploadProgress ?c = (if uploadProgress c < 90 then uploadProgress c + 10 else uploadProgress c)"
    by (rule interval_callback_progress)
  have t: "progressInterval ?c" using Suc.prems(1) by (simp add: interval_callback_timer)
  have d: "10 dvd uploadProgress ?c" using Suc.prems(2) by (simp add: p)
  have l: "uploadProgress ?c \<le> 90" using Suc.prems(2,3) unfolding p by presburger
  from Suc.IH[OF t d l] Suc.prems(1,3) show ?case
    by (auto simp: p min_def)
qed

lemma convertToPdf_started:
  "selectedFile c \<noteq> None \<Longrightarrow>
   uploadProgress (convertToPdf c) = 0 \<and> progressInterval (convertToPdf c)"
  by (auto simp: convertToPdf_def)

text \<open>
  Claim C8. After \<open>convertToPdf\<close> has started a request, \<open>n\<close> timer ticks leave the
  progress at \<open>min (10 * n) 90\<close>; whatever happens, as long as the response has not
  arrived the progress is at most 90; a tick leaves the progress as it is or adds 10;
  the arrival of the response sets it to 100 and clears the timer; a failure sets it
  to 0 and clears the timer.
\<close>

theorem simulated_progress_capped:
  assumes "selectedFile c \<noteq> None"
  shows "uploadProgress (run (replicate n tick) (convertToPdf c)) = min (10 * n) 90 \<and>
         (response_arrived \<notin> set es \<longrightarrow> uploadProgress (run es (convertToPdf c)) \<le> 90) \<and>
         (uploadProgress (step tick s) = uploadProgress s \<or>
          uploadProgress (step tick s) = uploadProgress s + 10) \<and>
         uploadProgress (step response_arrived s) = 100 \<and>
         \<not> progressInterval (step response_arrived s) \<and>
         uploadProgress (step (request_failed msg) s) = 0 \<and>
         \<not> progressInterval (step (request_failed msg) s)"
proof -
  from assms have st: "uploadProgress (convertToPdf c) = 0" "progressInterval (convertToPdf c)"
    by (simp_all add: convertToPdf_started)
  have 1: "uploadProgress (run (replicate n tick) (convertToPdf c)) = min (10 * n) 90"
    using run_ticks[of "convertToPdf c" n] st by simp
  have "in_flight_inv (convertToPdf c)" using st by (simp add: in_flight_inv_def)
  then have 2: "response_arrived \<notin> set es \<Longrightarrow> uploadProgress (run es (convertToPdf c)) \<le> 90"
    using run_inv[of "convertToPdf c" es] by (simp add: in_flight_inv_def)
  have 3: "uploadProgress (step tick s) = uploadProgress s \<or>
          uploadProgress (step tick s) = uploadProgress s + 10"
    by (simp add: interval_callback_progress)
  have 4: "uploadProgress (step response_arrived s) = 100 \<and>
         \<not> progressInterval (step response_arrived s) \<and>
         uploadProgress (step (request_failed msg) s) = 0 \<and>
         \<not> progressInterval (step (request_failed msg) s)"
    by (simp add: on_next_def on_error_callback_def)
  from 1 2 3 4 show ?thesis by blast
qed

theorem simulated_progress_capped_witness:
  "selectedFile \<lparr>isLoading = False, errorMessage = [], successMessage = [],
      selectedFile = Some \<lparr>name = ''deck.pptx'', type = [], size_bytes = 2048\<rparr>,
      conversionStatus = [], uploadProgress = 0, progressInterval = False\<rparr> \<noteq> None \<and>
   uploadProgress (run (replicate 12 tick) (convertToPdf
     \<lparr>isLoading = False, errorMessage = [], successMessage = [],
      selectedFile = Some \<lparr>name = ''deck.pptx'', type = [], size_bytes = 2048\<rparr>,
      conversionStatus = [], uploadProgress = 0, progressInterval = False\<rparr>)) = 90 \<and>
   response_arrived \<notin> set [tick, tick, request_failed ''Network error'', tick] \<and>
   uploadProgress (run [tick, tick, request_failed ''Network error'', tick] (convertToPdf
     \<lparr>isLoading = False, errorMessage = [], successMessage = [],
      selectedFile = Some \<lparr>name = ''deck.pptx'', type = [], size_bytes = 2048\<rparr>,
      conversionStatus = [], uploadProgress = 0, progressInterval = False\<rparr>)) \<le> 90"
proof -
  let ?c = "\<lparr>isLoading = False, errorMessage = [], successMessage = [],
      selectedFile = Some \<lparr>name = ''deck.pptx'', type = [], size_bytes = 2048\<rparr>,
      conversionStatus = [], uploadProgress = 0, progressInterval = False\<rparr>"
  have a: "selectedFile ?c \<noteq> None" by simp
  have b: "response_arrived \<notin> set [tick, tick, request_failed ''Network error'', tick]"
    by simp
  have "uploadProgress (run (replicate 12 tick) (convertToPdf ?c)) = min (10 * 12) 90"
    using simulated_progress_capped[OF a, of 12] by blast
  moreover have "uploadProgress
      (run [tick, tick, request_failed ''Network error'', tick] (convertToPdf ?c)) \<le> 90"
    using simulated_progress_capped[OF a, of _
        "[tick, tick, request_failed ''Network error'', tick]"] b
    by blast
  ultimately show ?thesis using a b by simp
qed

end
